theory Spec2Isabelle
  imports Main "HOL-Library.Sublist"
begin

section \<open>Natural-language-to-SQL query processor (Modules/query\_processor.py)\<close>

text \<open>
  The development embeds the class \<open>QueryProcessor\<close>: the sanitizer
  \<open>clean_sql_query\<close>, the validator \<open>validate_sql\<close>, the resolver
  \<open>natural_language_to_sql\<close> and its two helpers \<open>_openai_to_sql\<close> and
  \<open>_rule_based_to_sql\<close>.

  Text is ASCII: a Python \<open>str\<close> is a \<open>string\<close> whose characters are code points
  below 128. On them \<open>str.upper\<close> and \<open>str.lower\<close> change the 26 letters only, and
  the white space of \<open>str.split\<close> and \<open>str.strip\<close> is the ten characters
  9..13, 28..31 and 32. A character above 127 is treated as a caseless letter, which is
  not what Python does with it; the theorems are about ASCII text.

  A Python function that may raise returns \<open>exn + 'a\<close>, with \<open>Inl\<close> the exception.
\<close>

subsection \<open>Exceptions\<close>

datatype exn =
    ValueError string    \<comment> \<open>raised by \<open>clean_sql_query\<close>; the spec's UnsafeQuery\<close>
  | TypeError string     \<comment> \<open>raised by \<open>re.match\<close> on an argument that is not a string\<close>
  | RemoteError string   \<comment> \<open>anything raised by the remote call or while reading its answer\<close>

text \<open>\<open>str(e)\<close>: the message of the exception.\<close>

fun exn_str :: "exn \<Rightarrow> string" where
  "exn_str (ValueError m) = m"
| "exn_str (TypeError m) = m"
| "exn_str (RemoteError m) = m"

text \<open>\<open>try: body except Exception as e: handler(e)\<close>.\<close>

definition try_except :: "exn + 'a \<Rightarrow> (exn \<Rightarrow> exn + 'a) \<Rightarrow> exn + 'a" where
  "try_except body handler = (case body of Inl e \<Rightarrow> handler e | Inr r \<Rightarrow> Inr r)"

subsection \<open>The string operations the module uses\<close>

definition isspace :: "char \<Rightarrow> bool" where
  "isspace c = (let n = (of_char c :: nat) in (9 \<le> n \<and> n \<le> 13) \<or> (28 \<le> n \<and> n \<le> 32))"

definition upper_ch :: "char \<Rightarrow> char" where
  "upper_ch c = (let n = (of_char c :: nat) in if 97 \<le> n \<and> n \<le> 122 then char_of (n - 32) else c)"

definition lower_ch :: "char \<Rightarrow> char" where
  "lower_ch c = (let n = (of_char c :: nat) in if 65 \<le> n \<and> n \<le> 90 then char_of (n + 32) else c)"

text \<open>\<open>s.upper()\<close> and \<open>s.lower()\<close>.\<close>

definition upper :: "string \<Rightarrow> string" where
  "upper s = map upper_ch s"

definition lower :: "string \<Rightarrow> string" where
  "lower s = map lower_ch s"

text \<open>
  \<open>s.split()\<close> with no argument: the maximal runs of characters that are not white
  space, in order; \<open>w\<close> is the run being read.
\<close>

fun split_from :: "string \<Rightarrow> string \<Rightarrow> string list" where
  "split_from w [] = (if w = [] then [] else [w])"
| "split_from w (c # cs) =
     (if isspace c then (if w = [] then split_from [] cs else w # split_from [] cs)
      else split_from (w @ [c]) cs)"

definition py_split :: "string \<Rightarrow> string list" where
  "py_split s = split_from [] s"

text \<open>\<open>sep.join(xs)\<close>.\<close>

fun py_join :: "string \<Rightarrow> string list \<Rightarrow> string" where
  "py_join sep [] = []"
| "py_join sep [x] = x"
| "py_join sep (x # y # ys) = x @ sep @ py_join sep (y # ys)"

text \<open>\<open>s.strip()\<close>.\<close>

definition py_strip :: "string \<Rightarrow> string" where
  "py_strip s = rev (dropWhile isspace (rev (dropWhile isspace s)))"

text \<open>
  \<open>re.sub(m + r'\n?', '', s)\<close> for a literal marker \<open>m\<close>: the text is scanned from
  the left, every occurrence of the marker met is removed together with one line feed
  that follows it, and the scan goes on behind the removed text.
\<close>

definition drop_newline :: "string \<Rightarrow> string" where
  "drop_newline s = (case s of [] \<Rightarrow> [] | c # cs \<Rightarrow> if c = CHR 0x0A then cs else c # cs)"

function re_sub_marker :: "string \<Rightarrow> string \<Rightarrow> string" where
  "re_sub_marker m [] = []"
| "re_sub_marker m (c # cs) =
     (if m \<noteq> [] \<and> prefix m (c # cs)
      then re_sub_marker m (drop_newline (drop (length m) (c # cs)))
      else c # re_sub_marker m cs)"
  by pat_completeness auto
termination
proof (relation "measure (\<lambda>(m, s). length s)")
  show "wf (measure (\<lambda>(m::string, s::string). length s))" by simp
next
  fix m :: string and c :: char and cs :: string
  assume "m \<noteq> [] \<and> prefix m (c # cs)"
  then have "length (drop (length m) (c # cs)) < length (c # cs)"
    by (cases m) auto
  moreover have "length (drop_newline t) \<le> length t" for t
    by (cases t) (auto simp: drop_newline_def)
  ultimately have "length (drop_newline (drop (length m) (c # cs))) < length (c # cs)"
    using le_less_trans by blast
  then show "((m, drop_newline (drop (length m) (c # cs))), (m, c # cs))
             \<in> measure (\<lambda>(m, s). length s)"
    by simp
next
  fix m :: string and c :: char and cs :: string
  show "((m, cs), (m, c # cs)) \<in> measure (\<lambda>(m, s). length s)" by simp
qed

subsection \<open>The sanitizer: \<open>clean_sql_query\<close>\<close>

definition dangerous_keywords :: "string list" where
  "dangerous_keywords =
     [''DROP'', ''DELETE'', ''INSERT'', ''UPDATE'', ''ALTER'', ''CREATE'', ''TRUNCATE'']"

text \<open>
  The loop over the keywords: the first keyword that occurs in the upper-cased text
  raises, unless that text starts with \<open>SELECT\<close>.
\<close>

fun check_keywords :: "string list \<Rightarrow> string \<Rightarrow> exn + unit" where
  "check_keywords [] sql_upper = Inr ()"
| "check_keywords (keyword # rest) sql_upper =
     (if sublist keyword sql_upper \<and> \<not> prefix ''SELECT'' sql_upper
      then Inl (ValueError (''Potentially dangerous SQL operation detected: '' @ keyword))
      else check_keywords rest sql_upper)"

text \<open>The value of \<open>sql_query\<close> after the two substitutions and the split and join.\<close>

definition cleaned_text :: "string \<Rightarrow> string" where
  "cleaned_text sql_query =
     py_join '' '' (py_split (re_sub_marker ''```'' (re_sub_marker ''```sql'' sql_query)))"

definition clean_sql_query :: "string \<Rightarrow> exn + string" where
  "clean_sql_query sql_query =
     (let sql_query = re_sub_marker ''```sql'' sql_query;
          sql_query = re_sub_marker ''```'' sql_query;
          sql_query = py_join '' '' (py_split sql_query);
          sql_upper = upper sql_query
      in case check_keywords dangerous_keywords sql_upper of
           Inl e \<Rightarrow> Inl e
         | Inr _ \<Rightarrow> Inr (py_strip sql_query))"

subsection \<open>The validator: \<open>validate_sql\<close>\<close>

definition validate_sql :: "string \<Rightarrow> exn + bool" where
  "validate_sql sql_query =
     try_except
       (case clean_sql_query sql_query of
          Inl e \<Rightarrow> Inl e
        | Inr cleaned_sql \<Rightarrow>
            if \<not> prefix ''SELECT'' (upper cleaned_sql) then Inr False
            else if count_list cleaned_sql CHR ''('' \<noteq> count_list cleaned_sql CHR '')''
            then Inr False
            else Inr True)
       (\<lambda>e. Inr False)"

subsection \<open>The regular expressions of the two pattern tables\<close>

text \<open>
  Every pattern of the module is written under the flag \<open>(?i)\<close> and is a sequence of
  three kinds of items: \<open>.*\<close>, a literal text, and a group of literal alternatives
  \<open>(a|b|c)\<close>. The dot stands for any character but the line feed. A regular
  expression is the list of its items.
\<close>

datatype rx_item = AnyStar | Lit string | Group "string list"

type_synonym regex = "rx_item list"

text \<open>A literal read at the start of the text, letters compared without case.\<close>

fun ci_prefix :: "string \<Rightarrow> string \<Rightarrow> bool" where
  "ci_prefix [] s = True"
| "ci_prefix (a # w) [] = False"
| "ci_prefix (a # w) (c # s) = (lower_ch a = lower_ch c \<and> ci_prefix w s)"

text \<open>
  Whether the expression matches some text that starts where \<open>s\<close> starts. The
  engine backtracks over every length of a \<open>.*\<close> and every alternative, so it finds
  a match exactly when there is one.
\<close>

fun rx_match_here :: "regex \<Rightarrow> string \<Rightarrow> bool" where
  "rx_match_here [] s = True"
| "rx_match_here (Lit w # r) s = (ci_prefix w s \<and> rx_match_here r (drop (length w) s))"
| "rx_match_here (Group ws # r) s =
     (\<exists>w\<in>set ws. ci_prefix w s \<and> rx_match_here r (drop (length w) s))"
| "rx_match_here (AnyStar # r) [] = rx_match_here r []"
| "rx_match_here (AnyStar # r) (c # cs) =
     (rx_match_here r (c # cs) \<or> (c \<noteq> CHR 0x0A \<and> rx_match_here (AnyStar # r) cs))"

text \<open>\<open>re.match(pattern, s)\<close> is truthy: there is a match at the start of \<open>s\<close>.\<close>

definition re_match :: "regex \<Rightarrow> string \<Rightarrow> bool" where
  "re_match pattern s = rx_match_here pattern s"

text \<open>\<open>re.search(pattern, s)\<close> is truthy: there is a match at some position of \<open>s\<close>.\<close>

fun re_search :: "regex \<Rightarrow> string \<Rightarrow> bool" where
  "re_search pattern [] = rx_match_here pattern []"
| "re_search pattern (c # cs) = (rx_match_here pattern (c # cs) \<or> re_search pattern cs)"

subsection \<open>The resolver: \<open>natural_language_to_sql\<close>\<close>

record QueryProcessor =
  openai_api_key :: "string option"   \<comment> \<open>\<open>os.getenv('OPENAI_API_KEY')\<close>\<close>
  schema_context :: string

text \<open>\<open>if self.openai_api_key\<close>: neither \<open>None\<close> nor the empty string.\<close>

definition has_key :: "QueryProcessor \<Rightarrow> bool" where
  "has_key qp = (case openai_api_key qp of None \<Rightarrow> False | Some k \<Rightarrow> k \<noteq> [])"

text \<open>The dictionary \<open>fallback_patterns\<close>, in the order of its insertion.\<close>

definition fallback_patterns :: "(regex \<times> string) list" where
  "fallback_patterns =
    [([AnyStar, Lit ''all sales'', AnyStar],
        ''SELECT * FROM sales ORDER BY sale_date DESC''),
     ([AnyStar, Lit ''sales by category'', AnyStar],
        ''SELECT category, SUM(price * quantity) as total_sales FROM sales GROUP BY category ORDER BY total_sales DESC''),
     ([AnyStar, Lit ''total sales'', AnyStar],
        ''SELECT SUM(price * quantity) as total_sales FROM sales''),
     ([AnyStar, Lit ''customers'', AnyStar],
        ''SELECT * FROM customers ORDER BY registration_date DESC''),
     ([AnyStar, Lit ''average age'', AnyStar],
        ''SELECT AVG(age) as average_age FROM customers''),
     ([AnyStar, Lit ''sales by region'', AnyStar],
        ''SELECT region, SUM(price * quantity) as total_sales FROM sales GROUP BY region ORDER BY total_sales DESC''),
     ([AnyStar, Lit ''top'', AnyStar, Lit ''products'', AnyStar],
        ''SELECT product_name, SUM(quantity) as total_sold FROM sales GROUP BY product_name ORDER BY total_sold DESC LIMIT 10''),
     ([AnyStar, Lit ''recent sales'', AnyStar],
        ''SELECT * FROM sales ORDER BY sale_date DESC LIMIT 10''),
     ([AnyStar, Lit ''revenue'', AnyStar],
        ''SELECT SUM(price * quantity) as total_revenue FROM sales'')]"

text \<open>The list \<open>patterns\<close> of \<open>_rule_based_to_sql\<close>.\<close>

definition patterns :: "(regex \<times> string) list" where
  "patterns =
    [([AnyStar, Group [''all'', ''show'', ''display''], AnyStar, Lit ''sales''],
        ''SELECT * FROM sales ORDER BY sale_date DESC''),
     ([AnyStar, Lit ''total'', AnyStar, Lit ''sales'', AnyStar, Lit ''category''],
        ''SELECT category, SUM(price * quantity) as total_sales FROM sales GROUP BY category ORDER BY total_sales DESC''),
     ([AnyStar, Lit ''sales'', AnyStar, Lit ''region''],
        ''SELECT region, SUM(price * quantity) as total_sales FROM sales GROUP BY region ORDER BY total_sales DESC''),
     ([AnyStar, Lit ''total'', AnyStar, Lit ''sales''],
        ''SELECT SUM(price * quantity) as total_sales FROM sales''),
     ([AnyStar, Lit ''revenue''],
        ''SELECT SUM(price * quantity) as total_revenue FROM sales''),
     ([AnyStar, Group [''top'', ''best''], AnyStar, Lit ''products''],
        ''SELECT product_name, SUM(quantity) as total_sold, SUM(price * quantity) as revenue FROM sales GROUP BY product_name ORDER BY revenue DESC LIMIT 10''),
     ([AnyStar, Lit ''recent'', AnyStar, Lit ''sales''],
        ''SELECT * FROM sales ORDER BY sale_date DESC LIMIT 10''),
     ([AnyStar, Group [''all'', ''show'', ''display''], AnyStar, Lit ''customers''],
        ''SELECT * FROM customers ORDER BY registration_date DESC''),
     ([AnyStar, Lit ''average'', AnyStar, Lit ''age''],
        ''SELECT AVG(age) as average_age FROM customers''),
     ([AnyStar, Lit ''customers'', AnyStar, Lit ''city''],
        ''SELECT city, COUNT(*) as customer_count FROM customers GROUP BY city ORDER BY customer_count DESC''),
     ([AnyStar, Lit ''count'', AnyStar, Lit ''sales''],
        ''SELECT COUNT(*) as total_sales_count FROM sales''),
     ([AnyStar, Lit ''count'', AnyStar, Lit ''customers''],
        ''SELECT COUNT(*) as total_customers FROM customers'')]"

text \<open>
  \<open>for pattern, sql in table: if matcher(pattern, nl_query): return sql\<close>; \<open>None\<close>
  when the loop ends without returning.
\<close>

fun first_hit :: "(regex \<Rightarrow> string \<Rightarrow> bool) \<Rightarrow> (regex \<times> string) list \<Rightarrow> string \<Rightarrow> string option" where
  "first_hit matcher [] nl_query = None"
| "first_hit matcher ((pattern, sql) # rest) nl_query =
     (if matcher pattern nl_query then Some sql else first_hit matcher rest nl_query)"

text \<open>
  \<open>_rule_based_to_sql\<close>; it raises nothing on a string. Its first statement computes
  \<open>nl_query.lower()\<close> into a variable that is never read: the patterns are searched in
  the question as given.
\<close>

definition rule_based_to_sql :: "string \<Rightarrow> string \<times> string" where
  "rule_based_to_sql nl_query =
     (case first_hit re_search patterns nl_query of
        Some sql \<Rightarrow> (sql, ''Rule-based matching'')
      | None \<Rightarrow> (''SELECT * FROM sales LIMIT 10'', ''Default fallback''))"

text \<open>
  \<open>_openai_to_sql\<close>. The one remote call of a resolution is outside the program: its
  outcome \<open>response\<close> is a parameter, either the text
  \<open>response.choices[0].message.content\<close> or the exception raised by the call or by
  reading that field.
\<close>

definition openai_to_sql :: "exn + string \<Rightarrow> string \<Rightarrow> exn + string \<times> string" where
  "openai_to_sql response nl_query =
     try_except
       (case response of
          Inl e \<Rightarrow> Inl e
        | Inr content \<Rightarrow>
            (case clean_sql_query (py_strip content) of
               Inl e \<Rightarrow> Inl e
             | Inr cleaned_sql \<Rightarrow> Inr (cleaned_sql, ''OpenAI GPT'')))
       (\<lambda>e. Inr (rule_based_to_sql nl_query))"

text \<open>
  The argument of the resolver is annotated \<open>str\<close>, which Python does not enforce:
  \<open>NotStr msg\<close> is an argument that is not a string, on which the first
  \<open>re.match\<close> of the loop raises a \<open>TypeError\<close> with the message \<open>msg\<close>.
\<close>

datatype py_arg = Str string | NotStr string

text \<open>The body of the \<open>try\<close> statement of \<open>natural_language_to_sql\<close>.\<close>

fun resolve_body :: "QueryProcessor \<Rightarrow> exn + string \<Rightarrow> py_arg \<Rightarrow> exn + string \<times> string" where
  "resolve_body self response (NotStr msg) = Inl (TypeError msg)"
| "resolve_body self response (Str nl_query) =
     (case first_hit re_match fallback_patterns nl_query of
        Some sql \<Rightarrow> Inr (sql, ''Pattern matching'')
      | None \<Rightarrow>
          if has_key self then openai_to_sql response nl_query
          else Inr (rule_based_to_sql nl_query))"

definition natural_language_to_sql :: "QueryProcessor \<Rightarrow> exn + string \<Rightarrow> py_arg \<Rightarrow> exn + string \<times> string" where
  "natural_language_to_sql self response nl_query =
     try_except (resolve_body self response nl_query)
       (\<lambda>e. Inr (''SELECT 1 as error'', ''Error: '' @ exn_str e))"

subsection \<open>Notions used in the statements\<close>

text \<open>A word of \<open>str.split\<close>: not empty and free of white space.\<close>

definition token :: "string \<Rightarrow> bool" where
  "token t = (t \<noteq> [] \<and> (\<forall>c\<in>set t. \<not> isspace c))"


text \<open>
  Tier 3 fails: the remote call raises, or the sanitizer rejects the text it returns.
\<close>

definition tier3_fails :: "exn + string \<Rightarrow> bool" where
  "tier3_fails response =
     (case response of Inl e \<Rightarrow> True | Inr content \<Rightarrow> isl (clean_sql_query (py_strip content)))"


text \<open>No entry of the table matches the question.\<close>

definition no_hit :: "(regex \<Rightarrow> string \<Rightarrow> bool) \<Rightarrow> (regex \<times> string) list \<Rightarrow> string \<Rightarrow> bool" where
  "no_hit matcher table q = (\<forall>(pattern, sql)\<in>set table. \<not> matcher pattern q)"

text \<open>Entry \<open>i\<close> is the first entry of the table that matches the question.\<close>

definition first_matching :: "(regex \<Rightarrow> string \<Rightarrow> bool) \<Rightarrow> (regex \<times> string) list \<Rightarrow> string \<Rightarrow> nat \<Rightarrow> bool" where
  "first_matching matcher table q i =
     (i < length table \<and> matcher (fst (table ! i)) q \<and> no_hit matcher (take i table) q)"

text \<open>
  A plain query: it starts with \<open>SELECT\<close>, cleaning leaves it as it is, and its
  parentheses are as many to the left as to the right.
\<close>

definition plain_select :: "string \<Rightarrow> bool" where
  "plain_select sql = (prefix ''SELECT'' sql \<and> cleaned_text sql = sql
     \<and> count_list sql CHR ''('' = count_list sql CHR '')'')"



section \<open>Lemmas about the string operations\<close>

subsection \<open>Split, join and strip\<close>

lemma isspace_space: "isspace CHR '' ''"
  by (simp add: isspace_def)

lemma split_from_tokens:
  "\<forall>c\<in>set w. \<not> isspace c \<Longrightarrow> t \<in> set (split_from w s) \<Longrightarrow> token t"
proof (induction s arbitrary: w)
  case Nil
  then show ?case by (auto simp: token_def split: if_splits)
next
  case (Cons c cs)
  show ?case
  proof (cases "isspace c")
    case True
    with Cons.prems have "t = w \<and> w \<noteq> [] \<or> t \<in> set (split_from [] cs)"
      by (auto split: if_splits)
    then show ?thesis
      using Cons.IH[of "[]"] Cons.prems(1) by (auto simp: token_def)
  next
    case False
    with Cons.prems have "t \<in> set (split_from (w @ [c]) cs)" by simp
    then show ?thesis
      using Cons.IH[of "w @ [c]"] Cons.prems(1) False by auto
  qed
qed

lemma py_split_tokens: "\<forall>t\<in>set (py_split s). token t"
  using split_from_tokens[of "[]" _ s] by (simp add: py_split_def)

lemma split_from_token_prefix:
  "\<forall>c\<in>set x. \<not> isspace c \<Longrightarrow> split_from w (x @ s) = split_from (w @ x) s"
  by (induction x arbitrary: w) auto

lemma split_join_tokens:
  "\<forall>t\<in>set ts. token t \<Longrightarrow> split_from [] (py_join '' '' ts) = ts"
proof (induction ts)
  case Nil
  then show ?case by simp
next
  case (Cons x ts)
  then have x: "x \<noteq> []" "\<forall>c\<in>set x. \<not> isspace c" by (auto simp: token_def)
  show ?case
  proof (cases ts)
    case Nil
    then show ?thesis
      using split_from_token_prefix[of x "[]" "[]"] x by simp
  next
    case (Cons y ys)
    then show ?thesis
      using split_from_token_prefix[of x "[]" "CHR '' '' # py_join '' '' (y # ys)"] x Cons.IH Cons.prems
      by (simp add: isspace_space)
  qed
qed

lemma py_split_join_split: "py_split (py_join '' '' (py_split s)) = py_split s"
  using split_join_tokens[OF py_split_tokens] by (simp add: py_split_def)

lemma join_tokens_ends:
  "\<forall>t\<in>set ts. token t \<Longrightarrow> ts \<noteq> [] \<Longrightarrow>
     \<not> isspace (hd (py_join '' '' ts)) \<and> \<not> isspace (last (py_join '' '' ts)) \<and> py_join '' '' ts \<noteq> []"
proof (induction ts)
  case Nil
  then show ?case by simp
next
  case (Cons x ts)
  then obtain a x' where x: "x = a # x'" "\<forall>c\<in>set x. \<not> isspace c"
    by (cases x) (auto simp: token_def)
  show ?case
  proof (cases ts)
    case Nil
    then show ?thesis using x by auto
  next
    case (Cons y ys)
    then show ?thesis using x Cons.IH Cons.prems by auto
  qed
qed

lemma py_strip_id: "s = [] \<or> (\<not> isspace (hd s) \<and> \<not> isspace (last s)) \<Longrightarrow> py_strip s = s"
proof (cases s)
  case Nil
  then show ?thesis by (simp add: py_strip_def)
next
  case (Cons a list)
  assume "s = [] \<or> (\<not> isspace (hd s) \<and> \<not> isspace (last s))"
  with Cons have h: "\<not> isspace (hd s)" and l: "\<not> isspace (last s)" by auto
  from h Cons have 1: "dropWhile isspace s = s" by simp
  from l Cons have 2: "dropWhile isspace (rev s) = rev s"
    by (metis dropWhile.simps(2) hd_rev list.collapse list.distinct(1) rev_is_Nil_conv)
  show ?thesis by (simp add: py_strip_def 1 2)
qed

lemma py_strip_join_split: "py_strip (py_join '' '' (py_split s)) = py_join '' '' (py_split s)"
proof (cases "py_split s = []")
  case True
  then show ?thesis by (simp add: py_strip_def)
next
  case False
  then show ?thesis
    using join_tokens_ends[OF py_split_tokens False] by (intro py_strip_id) simp
qed

subsection \<open>Removing the code-fence markers\<close>

lemma re_sub_marker_hit:
  "m \<noteq> [] \<Longrightarrow> prefix m (c # cs) \<Longrightarrow>
     re_sub_marker m (c # cs) = re_sub_marker m (drop_newline (drop (length m) (c # cs)))"
  by (simp del: Cons_prefix_Cons)

lemma re_sub_marker_miss:
  "\<not> prefix m (c # cs) \<Longrightarrow> re_sub_marker m (c # cs) = c # re_sub_marker m cs"
  by simp

declare re_sub_marker.simps(2) [simp del]

lemma re_sub_triple_head:
  assumes "re_sub_marker [b, b, b] t = b # u"
  shows "\<exists>v. t = b # v"
proof (cases t)
  case Nil
  with assms show ?thesis by simp
next
  case (Cons c cs)
  show ?thesis
  proof (cases "prefix [b, b, b] (c # cs)")
    case True
    with Cons show ?thesis by simp
  next
    case False
    have "re_sub_marker [b, b, b] (c # cs) = c # re_sub_marker [b, b, b] cs"
      by (rule re_sub_marker_miss[OF False])
    with assms Cons show ?thesis by simp
  qed
qed

lemma re_sub_triple_head2:
  assumes "re_sub_marker [b, b, b] t = b # b # u"
  shows "\<exists>v. t = b # b # v"
proof (cases t)
  case Nil
  with assms show ?thesis by simp
next
  case (Cons c cs)
  show ?thesis
  proof (cases "prefix [b, b, b] (c # cs)")
    case True
    with Cons show ?thesis by (auto simp: prefix_def)
  next
    case False
    have "re_sub_marker [b, b, b] (c # cs) = c # re_sub_marker [b, b, b] cs"
      by (rule re_sub_marker_miss[OF False])
    with assms Cons have "c = b" and "re_sub_marker [b, b, b] cs = b # u"
      by simp_all
    with re_sub_triple_head[of b cs u] Cons show ?thesis by auto
  qed
qed

lemma re_sub_triple_gone: "\<not> sublist [b, b, b] (re_sub_marker [b, b, b] s)"
proof (induction "[b, b, b]" s rule: re_sub_marker.induct)
  case 1
  then show ?case by simp
next
  case (2 c cs)
  show ?case
  proof (cases "prefix [b, b, b] (c # cs)")
    case True
    have "re_sub_marker [b, b, b] (c # cs) =
          re_sub_marker [b, b, b] (drop_newline (drop (length [b, b, b]) (c # cs)))"
      by (rule re_sub_marker_hit[OF _ True]) simp
    moreover from 2(1) True
    have "\<not> sublist [b, b, b] (re_sub_marker [b, b, b] (drop_newline (drop (length [b, b, b]) (c # cs))))"
      by blast
    ultimately show ?thesis by simp
  next
    case False
    have eq: "re_sub_marker [b, b, b] (c # cs) = c # re_sub_marker [b, b, b] cs"
      by (rule re_sub_marker_miss[OF False])
    from 2(2) False have ih: "\<not> sublist [b, b, b] (re_sub_marker [b, b, b] cs)" by blast
    have "\<not> prefix [b, b, b] (c # re_sub_marker [b, b, b] cs)"
    proof
      assume p: "prefix [b, b, b] (c # re_sub_marker [b, b, b] cs)"
      then obtain u where "c = b" "re_sub_marker [b, b, b] cs = b # b # u"
        by (auto simp: prefix_def)
      with re_sub_triple_head2[of b cs u] False show False by (auto simp: prefix_def)
    qed
    with ih show ?thesis
      unfolding eq sublist_Cons_right by blast
  qed
qed

lemma re_sub_marker_absent:
  "\<not> sublist m s \<Longrightarrow> re_sub_marker m s = s"
proof (induction s)
  case Nil
  then show ?case by simp
next
  case (Cons c cs)
  then have "\<not> prefix m (c # cs)" and "\<not> sublist m cs"
    by (auto simp: sublist_Cons_right)
  with Cons.IH re_sub_marker_miss[of m c cs] show ?case by simp
qed

lemma sublist_sql_fence: "sublist ''```sql'' s \<Longrightarrow> sublist ''```'' s"
proof -
  assume "sublist ''```sql'' s"
  moreover have "sublist ''```'' (''```'' @ ''sql'')" by (rule sublist_append_rightI)
  ultimately show ?thesis using sublist_order.order_trans by fastforce
qed

subsection \<open>The cleaned text and the keyword loop\<close>

lemma sublist_across_separator:
  assumes "sublist xs (ys @ sp # zs)" "sp \<notin> set xs"
  shows "sublist xs ys \<or> sublist xs zs"
proof -
  from assms(1) consider "sublist xs ys" | "sublist xs (sp # zs)"
    | xs1 xs2 where "xs = xs1 @ xs2" "suffix xs1 ys" "prefix xs2 (sp # zs)"
    unfolding sublist_append by blast
  then show ?thesis
  proof cases
    case 1
    then show ?thesis by simp
  next
    case 2
    then have "prefix xs (sp # zs) \<or> sublist xs zs" by (simp add: sublist_Cons_right)
    with assms(2) show ?thesis by (auto simp: prefix_Cons)
  next
    case 3
    from 3(1,3) assms(2) have "xs2 = []" by (auto simp: prefix_Cons)
    with 3(1,2) show ?thesis by auto
  qed
qed

lemma sublist_join:
  "sublist f (py_join '' '' ts) \<Longrightarrow> CHR '' '' \<notin> set f \<Longrightarrow> f \<noteq> [] \<Longrightarrow> \<exists>t\<in>set ts. sublist f t"
proof (induction ts)
  case Nil
  then show ?case by simp
next
  case (Cons x ts)
  show ?case
  proof (cases ts)
    case Nil
    with Cons.prems show ?thesis by simp
  next
    case (Cons y ys)
    with Cons.prems(1) have "sublist f (x @ CHR '' '' # py_join '' '' ts)" by simp
    from sublist_across_separator[OF this Cons.prems(2)] Cons.IH Cons.prems(2,3)
    show ?thesis by auto
  qed
qed

lemma split_from_sublist: "t \<in> set (split_from w s) \<Longrightarrow> sublist t (w @ s)"
proof (induction s arbitrary: w)
  case Nil
  then show ?case by (auto split: if_splits)
next
  case (Cons c cs)
  show ?case
  proof (cases "isspace c")
    case True
    with Cons.prems have "t = w \<or> t \<in> set (split_from [] cs)" by (auto split: if_splits)
    then show ?thesis
    proof
      assume "t = w" then show ?thesis by simp
    next
      assume "t \<in> set (split_from [] cs)"
      then have "sublist t cs" using Cons.IH[of "[]"] by simp
      moreover have "sublist cs ((w @ [c]) @ cs)" by (rule sublist_append_leftI)
      ultimately have "sublist t ((w @ [c]) @ cs)" by (rule sublist_order.order_trans)
      then show ?thesis by simp
    qed
  next
    case False
    with Cons.prems Cons.IH[of "w @ [c]"] show ?thesis by simp
  qed
qed

lemma sublist_collapse:
  assumes "sublist f (py_join '' '' (py_split s))" "CHR '' '' \<notin> set f" "f \<noteq> []"
  shows "sublist f s"
proof -
  from sublist_join[OF assms] obtain t where "t \<in> set (py_split s)" "sublist f t" by blast
  with split_from_sublist[of t "[]" s] show ?thesis
    unfolding py_split_def using sublist_order.order_trans by fastforce
qed





lemma cleaned_text_no_fence: "\<not> sublist ''```'' (cleaned_text s)"
proof
  assume "sublist ''```'' (cleaned_text s)"
  then have "sublist ''```'' (re_sub_marker ''```'' (re_sub_marker ''```sql'' s))"
    unfolding cleaned_text_def by (rule sublist_collapse) simp_all
  with re_sub_triple_gone[of "CHR 0x60"] show False by simp
qed

lemma cleaned_text_fixed: "cleaned_text (cleaned_text s) = cleaned_text s"
proof -
  let ?y = "cleaned_text s"
  have nf: "\<not> sublist ''```'' ?y" by (rule cleaned_text_no_fence)
  then have "\<not> sublist ''```sql'' ?y" using sublist_sql_fence by blast
  then have 1: "re_sub_marker ''```sql'' ?y = ?y" by (rule re_sub_marker_absent)
  from nf have 2: "re_sub_marker ''```'' ?y = ?y" by (rule re_sub_marker_absent)
  have "cleaned_text ?y = py_join '' '' (py_split ?y)"
    by (simp only: cleaned_text_def[of ?y] 1 2)
  also have "\<dots> = ?y"
    unfolding cleaned_text_def[of s] by (simp only: py_split_join_split)
  finally show ?thesis .
qed

lemma check_keywords_ok:
  "check_keywords ks u = Inr () \<longleftrightarrow> \<not> ((\<exists>k\<in>set ks. sublist k u) \<and> \<not> prefix ''SELECT'' u)"
  by (induction ks) auto

lemma clean_sql_query_unfold:
  "clean_sql_query s =
     (case check_keywords dangerous_keywords (upper (cleaned_text s)) of
        Inl e \<Rightarrow> Inl e | Inr _ \<Rightarrow> Inr (cleaned_text s))"
  by (simp add: clean_sql_query_def cleaned_text_def py_strip_join_split Let_def
        split: sum.splits)

lemma clean_sql_query_Inr:
  "clean_sql_query s = Inr y \<longleftrightarrow>
     y = cleaned_text s \<and> check_keywords dangerous_keywords (upper (cleaned_text s)) = Inr ()"
  by (auto simp: clean_sql_query_unfold split: sum.splits)

lemma clean_sql_query_fixed:
  assumes "clean_sql_query s = Inr y"
  shows "clean_sql_query y = Inr y"
proof -
  from assms have y: "y = cleaned_text s"
    and ok: "check_keywords dangerous_keywords (upper (cleaned_text s)) = Inr ()"
    by (simp_all add: clean_sql_query_Inr)
  from y have "cleaned_text y = y" by (simp add: cleaned_text_fixed)
  with y ok show ?thesis by (simp add: clean_sql_query_Inr)
qed

section \<open>Lemmas about the resolver\<close>

subsection \<open>The loop over a table\<close>

lemma first_hit_no_hit: "first_hit matcher table q = None \<longleftrightarrow> no_hit matcher table q"
proof (induction table)
  case Nil
  then show ?case by (simp add: no_hit_def)
next
  case (Cons entry table)
  obtain pattern sql where "entry = (pattern, sql)" by (cases entry)
  with Cons.IH show ?case by (simp add: no_hit_def)
qed

lemma first_hit_first_matching:
  "first_matching matcher table q i \<Longrightarrow> first_hit matcher table q = Some (snd (table ! i))"
proof (induction table arbitrary: i)
  case Nil
  then show ?case by (simp add: first_matching_def)
next
  case (Cons entry table)
  obtain pattern sql where entry: "entry = (pattern, sql)" by (cases entry)
  show ?case
  proof (cases i)
    case 0
    with Cons.prems entry show ?thesis by (simp add: first_matching_def)
  next
    case (Suc k)
    with Cons.prems entry have "\<not> matcher pattern q" and "first_matching matcher table q k"
      by (auto simp: first_matching_def no_hit_def)
    with Cons.IH[of k] entry Suc show ?thesis by simp
  qed
qed

lemma first_hit_in_table:
  "first_hit matcher table q = Some sql \<Longrightarrow> sql \<in> snd ` set table"
  by (induction table) (auto split: if_splits)

subsection \<open>The fixed queries\<close>

lemma prefix_select_upper: "prefix ''SELECT'' s \<Longrightarrow> prefix ''SELECT'' (upper s)"
proof -
  assume "prefix ''SELECT'' s"
  then obtain r where "s = ''SELECT'' @ r" by (auto simp: prefix_def)
  then have "upper s = upper ''SELECT'' @ upper r" by (simp add: upper_def)
  moreover have "upper ''SELECT'' = ''SELECT''" by code_simp
  ultimately show ?thesis by simp
qed


lemma plain_select_ok:
  assumes "plain_select sql"
  shows "clean_sql_query sql = Inr sql" and "validate_sql sql = Inr True"
proof -
  from assms have p: "prefix ''SELECT'' (upper sql)" and c: "cleaned_text sql = sql"
    and n: "count_list sql CHR ''('' = count_list sql CHR '')''"
    by (auto simp: plain_select_def prefix_select_upper)
  from p c show 1: "clean_sql_query sql = Inr sql"
    by (simp add: clean_sql_query_Inr check_keywords_ok)
  from 1 p n show "validate_sql sql = Inr True"
    by (simp add: validate_sql_def try_except_def)
qed

lemma fallback_patterns_plain: "list_all (\<lambda>(pattern, sql). plain_select sql) fallback_patterns"
  by code_simp

lemma patterns_plain: "list_all (\<lambda>(pattern, sql). plain_select sql) patterns"
  by code_simp

lemma default_plain: "plain_select ''SELECT * FROM sales LIMIT 10''"
  by code_simp

lemma error_plain: "plain_select ''SELECT 1 as error''"
  by code_simp

lemma first_hit_plain:
  assumes "list_all (\<lambda>(pattern, sql). plain_select sql) table" "first_hit matcher table q = Some sql"
  shows "plain_select sql"
  using first_hit_in_table[OF assms(2)] assms(1) by (auto simp: list_all_iff)

lemma rule_based_plain: "plain_select (fst (rule_based_to_sql q))"
  using first_hit_plain[OF patterns_plain, of re_search q] default_plain
  by (auto simp: rule_based_to_sql_def split: option.splits)

lemma rule_based_tag:
  "snd (rule_based_to_sql q) = ''Rule-based matching'' \<or> snd (rule_based_to_sql q) = ''Default fallback''"
  by (simp add: rule_based_to_sql_def split: option.splits)

subsection \<open>The remote tier\<close>

lemma openai_to_sql_cases:
  "openai_to_sql response q =
     (if tier3_fails response then Inr (rule_based_to_sql q)
      else Inr (cleaned_text (py_strip (projr response)), ''OpenAI GPT''))"
  by (auto simp: openai_to_sql_def tier3_fails_def try_except_def clean_sql_query_unfold
           split: sum.splits)

lemma tier3_ok:
  "\<not> tier3_fails response \<longleftrightarrow>
     (\<exists>content y. response = Inr content \<and> clean_sql_query (py_strip content) = Inr y)"
proof (cases response)
  case (Inl e)
  then show ?thesis by (simp add: tier3_fails_def)
next
  case (Inr content)
  then show ?thesis
    by (cases "clean_sql_query (py_strip content)") (simp_all add: tier3_fails_def)
qed

subsection \<open>The resolver on a string\<close>

lemma resolve_Str:
  "natural_language_to_sql self response (Str q) =
     (case first_hit re_match fallback_patterns q of
        Some sql \<Rightarrow> Inr (sql, ''Pattern matching'')
      | None \<Rightarrow>
          if has_key self \<and> \<not> tier3_fails response
          then Inr (cleaned_text (py_strip (projr response)), ''OpenAI GPT'')
          else Inr (rule_based_to_sql q))"
  by (simp add: natural_language_to_sql_def try_except_def openai_to_sql_cases
           split: option.splits)

lemma resolve_NotStr:
  "natural_language_to_sql self response (NotStr msg) = Inr (''SELECT 1 as error'', ''Error: '' @ msg)"
  by (simp add: natural_language_to_sql_def try_except_def)

lemma rule_based_first_matching:
  "first_matching re_search patterns q i \<Longrightarrow>
     rule_based_to_sql q = (snd (patterns ! i), ''Rule-based matching'')"
  by (simp add: rule_based_to_sql_def first_hit_first_matching)

lemma rule_based_no_hit:
  "no_hit re_search patterns q \<Longrightarrow>
     rule_based_to_sql q = (''SELECT * FROM sales LIMIT 10'', ''Default fallback'')"
  using first_hit_no_hit[of re_search patterns q] by (simp add: rule_based_to_sql_def)

subsection \<open>Blank questions\<close>










section \<open>The sanitizer\<close>






text \<open>
  Claim C9. The sanitizer is idempotent: when it accepts \<open>x\<close> and returns \<open>y\<close>, it
  accepts \<open>y\<close> and returns \<open>y\<close> again.
\<close>

theorem clean_sql_query_idempotent:
  assumes "clean_sql_query x = Inr y"
  shows "clean_sql_query y = clean_sql_query x"
  using assms clean_sql_query_fixed[OF assms] by simp

theorem clean_sql_query_idempotent_witness:
  "clean_sql_query (''```sql'' @ [CHR 0x0A] @ ''SELECT  *  FROM t '' @ [CHR 0x0A] @ ''```'')
     = Inr ''SELECT * FROM t''
   \<and> clean_sql_query ''SELECT * FROM t''
     = clean_sql_query (''```sql'' @ [CHR 0x0A] @ ''SELECT  *  FROM t '' @ [CHR 0x0A] @ ''```'')"
proof -
  let ?x = "''```sql'' @ [CHR 0x0A] @ ''SELECT  *  FROM t '' @ [CHR 0x0A] @ ''```''"
  have h: "clean_sql_query ?x = Inr ''SELECT * FROM t''" by code_simp
  from clean_sql_query_idempotent[OF h] h show ?thesis by simp
qed

subsection \<open>Sample questions and answers, evaluated once\<close>

lemma count_sales_tier1: "no_hit re_match fallback_patterns ''count sales''"
  by code_simp

lemma count_sales_tier2: "first_matching re_search patterns ''count sales'' 10"
  by code_simp

lemma hello_tier1: "no_hit re_match fallback_patterns ''hello''"
  by code_simp

lemma hello_tier2: "no_hit re_search patterns ''hello''"
  by code_simp

lemma all_sales_tier1: "first_matching re_match fallback_patterns ''Show me all sales data'' 0"
  by code_simp

lemma fallback_patterns_0:
  "snd (fallback_patterns ! 0) = ''SELECT * FROM sales ORDER BY sale_date DESC''"
  by (simp add: fallback_patterns_def)

lemma patterns_10: "snd (patterns ! 10) = ''SELECT COUNT(*) as total_sales_count FROM sales''"
  by (simp add: patterns_def)

lemma select_2_clean: "clean_sql_query (py_strip ''SELECT 2'') = Inr ''SELECT 2''"
  by code_simp

lemma with_query_clean:
  "clean_sql_query (py_strip ''WITH t AS (SELECT 1) SELECT * FROM t'')
     = Inr ''WITH t AS (SELECT 1) SELECT * FROM t''"
  by code_simp

lemma with_query_invalid: "validate_sql ''WITH t AS (SELECT 1) SELECT * FROM t'' = Inr False"
  by code_simp

lemma keyed: "has_key \<lparr>openai_api_key = Some ''sk-test'', schema_context = []\<rparr>"
  by (simp add: has_key_def)

lemma bare: "\<not> has_key \<lparr>openai_api_key = None, schema_context = []\<rparr>"
  by (simp add: has_key_def)

section \<open>The resolver\<close>

text \<open>
  Claim C1, as the spec states it: a question that matches an entry of the first or of
  the second table gets the query of its first matching entry, with or without a
  credential. With a credential the code asks the remote model before it reads the
  second table: \<open>count sales\<close> matches no entry of the first table and entry 10 of the
  second, and gets the remote text when a key is set.
\<close>

theorem resolve_first_match_counterexample:
  "no_hit re_match fallback_patterns ''count sales''
   \<and> first_matching re_search patterns ''count sales'' 10
   \<and> natural_language_to_sql \<lparr>openai_api_key = None, schema_context = []\<rparr>
         (Inr ''SELECT 2'') (Str ''count sales'')
       = Inr (''SELECT COUNT(*) as total_sales_count FROM sales'', ''Rule-based matching'')
   \<and> natural_language_to_sql \<lparr>openai_api_key = Some ''sk-test'', schema_context = []\<rparr>
         (Inr ''SELECT 2'') (Str ''count sales'')
       = Inr (''SELECT 2'', ''OpenAI GPT'')"
proof -
  have none: "first_hit re_match fallback_patterns ''count sales'' = None"
    using count_sales_tier1 by (simp add: first_hit_no_hit)
  have rule: "rule_based_to_sql ''count sales''
                = (''SELECT COUNT(*) as total_sales_count FROM sales'', ''Rule-based matching'')"
    using rule_based_first_matching[OF count_sales_tier2] by (simp add: patterns_10)
  have ok: "\<not> tier3_fails (Inr ''SELECT 2'')"
    using select_2_clean by (simp add: tier3_fails_def)
  have same: "cleaned_text (py_strip ''SELECT 2'') = ''SELECT 2''"
    using select_2_clean by (simp add: clean_sql_query_Inr)
  show ?thesis
    using count_sales_tier1 count_sales_tier2 none rule ok same keyed bare
    by (simp add: resolve_Str)
qed

text \<open>
  Claim C1, amended. A question that matches an entry of the first table gets the query
  of its first matching entry there, whatever the credential and the remote answer. A
  question that matches no entry of the first table and some entry of the second gets
  the query of its first matching entry there when no credential is set or tier 3
  fails; when a credential is set and the remote text passes the sanitizer, it gets
  that text, cleaned, and the second table is not read.
\<close>

theorem resolve_first_match:
  "(first_matching re_match fallback_patterns q i \<longrightarrow>
      natural_language_to_sql self response (Str q)
        = Inr (snd (fallback_patterns ! i), ''Pattern matching''))
   \<and> (no_hit re_match fallback_patterns q \<and> first_matching re_search patterns q k
        \<and> (\<not> has_key self \<or> tier3_fails response) \<longrightarrow>
      natural_language_to_sql self response (Str q)
        = Inr (snd (patterns ! k), ''Rule-based matching''))
   \<and> (no_hit re_match fallback_patterns q \<and> has_key self
        \<and> response = Inr content \<and> clean_sql_query (py_strip content) = Inr y \<longrightarrow>
      natural_language_to_sql self response (Str q) = Inr (y, ''OpenAI GPT''))"
proof (intro conjI impI)
  assume "first_matching re_match fallback_patterns q i"
  then have "first_hit re_match fallback_patterns q = Some (snd (fallback_patterns ! i))"
    by (rule first_hit_first_matching)
  then show "natural_language_to_sql self response (Str q)
               = Inr (snd (fallback_patterns ! i), ''Pattern matching'')"
    by (simp add: resolve_Str)
next
  assume a: "no_hit re_match fallback_patterns q \<and> first_matching re_search patterns q k
             \<and> (\<not> has_key self \<or> tier3_fails response)"
  then have "first_hit re_match fallback_patterns q = None" by (simp add: first_hit_no_hit)
  moreover from a have "rule_based_to_sql q = (snd (patterns ! k), ''Rule-based matching'')"
    by (simp add: rule_based_first_matching)
  ultimately show "natural_language_to_sql self response (Str q)
                     = Inr (snd (patterns ! k), ''Rule-based matching'')"
    using a by (auto simp: resolve_Str)
next
  assume a: "no_hit re_match fallback_patterns q \<and> has_key self
             \<and> response = Inr content \<and> clean_sql_query (py_strip content) = Inr y"
  then have "first_hit re_match fallback_patterns q = None" by (simp add: first_hit_no_hit)
  moreover from a have "\<not> tier3_fails response" by (simp add: tier3_fails_def)
  moreover from a have "cleaned_text (py_strip (projr response)) = y"
    by (simp add: clean_sql_query_Inr)
  ultimately show "natural_language_to_sql self response (Str q) = Inr (y, ''OpenAI GPT'')"
    using a by (simp add: resolve_Str)
qed

text \<open>
  The three cases at work: a question of the first table with a key set, a question of
  the second table without a key, and the same question with a key.
\<close>

theorem resolve_first_match_witness:
  "first_matching re_match fallback_patterns ''Show me all sales data'' 0
   \<and> natural_language_to_sql \<lparr>openai_api_key = Some ''sk-test'', schema_context = []\<rparr>
         (Inr ''SELECT 2'') (Str ''Show me all sales data'')
       = Inr (''SELECT * FROM sales ORDER BY sale_date DESC'', ''Pattern matching'')
   \<and> no_hit re_match fallback_patterns ''count sales''
   \<and> first_matching re_search patterns ''count sales'' 10
   \<and> \<not> has_key \<lparr>openai_api_key = None, schema_context = []\<rparr>
   \<and> natural_language_to_sql \<lparr>openai_api_key = None, schema_context = []\<rparr>
         (Inr ''SELECT 2'') (Str ''count sales'')
       = Inr (''SELECT COUNT(*) as total_sales_count FROM sales'', ''Rule-based matching'')
   \<and> has_key \<lparr>openai_api_key = Some ''sk-test'', schema_context = []\<rparr>
   \<and> clean_sql_query (py_strip ''SELECT 2'') = Inr ''SELECT 2''
   \<and> natural_language_to_sql \<lparr>openai_api_key = Some ''sk-test'', schema_context = []\<rparr>
         (Inr ''SELECT 2'') (Str ''count sales'')
       = Inr (''SELECT 2'', ''OpenAI GPT'')"
proof -
  let ?keyed = "\<lparr>openai_api_key = Some ''sk-test'', schema_context = []\<rparr>"
  let ?bare = "\<lparr>openai_api_key = None, schema_context = []\<rparr>"
  note h1 = all_sales_tier1 and h2 = count_sales_tier1 and h3 = count_sales_tier2
    and h4 = bare and h5 = keyed and h6 = select_2_clean
    and e1 = fallback_patterns_0 and e2 = patterns_10
  from resolve_first_match[where q = "''Show me all sales data''" and i = 0 and self = ?keyed
      and response = "Inr ''SELECT 2''"] h1
  have r1: "natural_language_to_sql ?keyed (Inr ''SELECT 2'') (Str ''Show me all sales data'')
              = Inr (''SELECT * FROM sales ORDER BY sale_date DESC'', ''Pattern matching'')"
    unfolding e1 by blast
  from resolve_first_match[where q = "''count sales''" and k = 10 and self = ?bare
      and response = "Inr ''SELECT 2''"] h2 h3 h4
  have r2: "natural_language_to_sql ?bare (Inr ''SELECT 2'') (Str ''count sales'')
              = Inr (''SELECT COUNT(*) as total_sales_count FROM sales'', ''Rule-based matching'')"
    unfolding e2 by blast
  from resolve_first_match[where q = "''count sales''" and self = ?keyed
      and response = "Inr ''SELECT 2''" and content = "''SELECT 2''" and y = "''SELECT 2''"]
    h2 h5 h6
  have r3: "natural_language_to_sql ?keyed (Inr ''SELECT 2'') (Str ''count sales'')
              = Inr (''SELECT 2'', ''OpenAI GPT'')"
    by blast
  from h1 r1 h2 h3 h4 r2 h5 h6 r3 show ?thesis by blast
qed

text \<open>
  Claim C7, as the spec states it: an unmatched question without a credential gets the
  default query with the method \<open>rule-based\<close>. The code returns the default query
  with a tag of its own, \<open>Default fallback\<close>, which is neither that string nor the
  tag \<open>Rule-based matching\<close> of a hit in the second table.
\<close>

theorem resolve_default_counterexample:
  "no_hit re_match fallback_patterns ''hello'' \<and> no_hit re_search patterns ''hello''
   \<and> natural_language_to_sql \<lparr>openai_api_key = None, schema_context = []\<rparr>
         (Inr ''SELECT 2'') (Str ''hello'')
       = Inr (''SELECT * FROM sales LIMIT 10'', ''Default fallback'')
   \<and> ''Default fallback'' \<noteq> ''rule-based''
   \<and> ''Default fallback'' \<noteq> ''Rule-based matching''"
proof -
  have "first_hit re_match fallback_patterns ''hello'' = None"
    using hello_tier1 by (simp add: first_hit_no_hit)
  then show ?thesis
    using hello_tier1 hello_tier2 bare rule_based_no_hit[OF hello_tier2]
    by (simp add: resolve_Str)
qed

text \<open>
  Claim C7, amended: for a question that matches no entry of either table, when no
  credential is set, the remote call is not made (the answer does not depend on
  \<open>response\<close>) and the resolver returns the default query with the tag
  \<open>Default fallback\<close>.
\<close>

theorem resolve_default:
  assumes "no_hit re_match fallback_patterns q" "no_hit re_search patterns q" "\<not> has_key self"
  shows "natural_language_to_sql self response (Str q)
           = Inr (''SELECT * FROM sales LIMIT 10'', ''Default fallback'')"
proof -
  from assms(1) have "first_hit re_match fallback_patterns q = None"
    by (simp add: first_hit_no_hit)
  with assms(3) rule_based_no_hit[OF assms(2)] show ?thesis
    by (simp add: resolve_Str)
qed

theorem resolve_default_witness:
  "no_hit re_match fallback_patterns ''hello'' \<and> no_hit re_search patterns ''hello''
   \<and> \<not> has_key \<lparr>openai_api_key = None, schema_context = []\<rparr>
   \<and> natural_language_to_sql \<lparr>openai_api_key = None, schema_context = []\<rparr>
         (Inl (RemoteError ''unreachable'')) (Str ''hello'')
       = Inr (''SELECT * FROM sales LIMIT 10'', ''Default fallback'')"
  using resolve_default[OF hello_tier1 hello_tier2 bare] hello_tier1 hello_tier2 bare
  by simp



subsection \<open>More samples\<close>

lemma hello_none: "first_hit re_match fallback_patterns ''hello'' = None"
  using hello_tier1 by (simp add: first_hit_no_hit)

lemma hello_rule_based:
  "rule_based_to_sql ''hello'' = (''SELECT * FROM sales LIMIT 10'', ''Default fallback'')"
  by (rule rule_based_no_hit[OF hello_tier2])

lemma with_query_passes: "\<not> tier3_fails (Inr ''WITH t AS (SELECT 1) SELECT * FROM t'')"
  using with_query_clean by (simp add: tier3_fails_def)

lemma with_query_text:
  "cleaned_text (py_strip ''WITH t AS (SELECT 1) SELECT * FROM t'')
     = ''WITH t AS (SELECT 1) SELECT * FROM t''"
  using with_query_clean by (simp add: clean_sql_query_Inr)

lemma hello_with_query:
  "natural_language_to_sql \<lparr>openai_api_key = Some ''sk-test'', schema_context = []\<rparr>
     (Inr ''WITH t AS (SELECT 1) SELECT * FROM t'') (Str ''hello'')
   = Inr (''WITH t AS (SELECT 1) SELECT * FROM t'', ''OpenAI GPT'')"
  using hello_none keyed with_query_passes with_query_text by (simp add: resolve_Str)

lemma hello_bare:
  "natural_language_to_sql \<lparr>openai_api_key = None, schema_context = []\<rparr> response (Str ''hello'')
   = Inr (''SELECT * FROM sales LIMIT 10'', ''Default fallback'')"
  using hello_none bare hello_rule_based by (simp add: resolve_Str)

lemma timeout_fails: "tier3_fails (Inl (RemoteError ''timeout''))"
  by (simp add: tier3_fails_def)

lemma hello_timeout:
  "natural_language_to_sql \<lparr>openai_api_key = Some ''sk-test'', schema_context = []\<rparr>
     (Inl (RemoteError ''timeout'')) (Str ''hello'')
   = Inr (''SELECT * FROM sales LIMIT 10'', ''Default fallback'')"
  using hello_none keyed timeout_fails hello_rule_based by (simp add: resolve_Str)

lemma count_sales_bare:
  "natural_language_to_sql \<lparr>openai_api_key = None, schema_context = []\<rparr>
     (Inr ''SELECT 2'') (Str ''count sales'')
   = Inr (''SELECT COUNT(*) as total_sales_count FROM sales'', ''Rule-based matching'')"
proof -
  have "first_hit re_match fallback_patterns ''count sales'' = None"
    using count_sales_tier1 by (simp add: first_hit_no_hit)
  with bare rule_based_first_matching[OF count_sales_tier2] show ?thesis
    by (simp add: resolve_Str patterns_10)
qed

lemma all_sales_keyed:
  "natural_language_to_sql \<lparr>openai_api_key = Some ''sk-test'', schema_context = []\<rparr>
     (Inr ''SELECT 2'') (Str ''Show me all sales data'')
   = Inr (''SELECT * FROM sales ORDER BY sale_date DESC'', ''Pattern matching'')"
  using first_hit_first_matching[OF all_sales_tier1]
  by (simp add: resolve_Str fallback_patterns_0)

text \<open>
  Claim C3, as the spec states it: the method tag is one of the four strings
  \<open>pattern\<close>, \<open>rule-based\<close>, \<open>llm\<close> and \<open>error\<close>. The code returns none of them:
  the spec's own first scenario gets the tag \<open>Pattern matching\<close>.
\<close>

theorem resolve_method_counterexample:
  "natural_language_to_sql \<lparr>openai_api_key = Some ''sk-test'', schema_context = []\<rparr>
     (Inr ''SELECT 2'') (Str ''Show me all sales data'')
   = Inr (''SELECT * FROM sales ORDER BY sale_date DESC'', ''Pattern matching'')
   \<and> ''Pattern matching'' \<notin> {''pattern'', ''rule-based'', ''llm'', ''error''}"
  using all_sales_keyed by simp

text \<open>
  Claim C3, amended: the resolver always returns a result, and its method tag is one
  of the four strings \<open>Pattern matching\<close>, \<open>Rule-based matching\<close>,
  \<open>Default fallback\<close> and \<open>OpenAI GPT\<close>, or the text \<open>Error: \<close> followed by the
  message of the exception caught.
\<close>

theorem resolve_method_tags:
  "\<exists>sql method. natural_language_to_sql self response arg = Inr (sql, method)
     \<and> (method \<in> {''Pattern matching'', ''Rule-based matching'', ''Default fallback'',
                    ''OpenAI GPT''}
          \<or> (\<exists>msg. method = ''Error: '' @ msg))"
proof (cases arg)
  case (NotStr msg)
  then show ?thesis by (simp add: resolve_NotStr)
next
  case (Str q)
  obtain sql tag where r: "rule_based_to_sql q = (sql, tag)"
    by (cases "rule_based_to_sql q")
  with rule_based_tag[of q]
  have "tag = ''Rule-based matching'' \<or> tag = ''Default fallback''" by simp
  with Str r show ?thesis
    by (auto simp: resolve_Str split: option.splits)
qed

text \<open>Each of the five kinds of tag is returned on some input.\<close>

theorem resolve_method_tags_witness:
  "(\<exists>sql method.
      natural_language_to_sql \<lparr>openai_api_key = None, schema_context = []\<rparr> (Inr ''SELECT 2'')
        (NotStr ''expected string or bytes-like object'') = Inr (sql, method)
      \<and> method = ''Error: expected string or bytes-like object'')
   \<and> snd (projr (natural_language_to_sql \<lparr>openai_api_key = Some ''sk-test'', schema_context = []\<rparr>
        (Inr ''SELECT 2'') (Str ''Show me all sales data''))) = ''Pattern matching''
   \<and> snd (projr (natural_language_to_sql \<lparr>openai_api_key = Some ''sk-test'', schema_context = []\<rparr>
        (Inr ''WITH t AS (SELECT 1) SELECT * FROM t'') (Str ''hello''))) = ''OpenAI GPT''
   \<and> snd (projr (natural_language_to_sql \<lparr>openai_api_key = None, schema_context = []\<rparr>
        (Inr ''SELECT 2'') (Str ''count sales''))) = ''Rule-based matching''
   \<and> snd (projr (natural_language_to_sql \<lparr>openai_api_key = None, schema_context = []\<rparr>
        (Inr ''SELECT 2'') (Str ''hello''))) = ''Default fallback''"
proof -
  from resolve_method_tags[of "\<lparr>openai_api_key = None, schema_context = []\<rparr>" "Inr ''SELECT 2''"
      "NotStr ''expected string or bytes-like object''"]
  have "\<exists>sql method.
      natural_language_to_sql \<lparr>openai_api_key = None, schema_context = []\<rparr> (Inr ''SELECT 2'')
        (NotStr ''expected string or bytes-like object'') = Inr (sql, method)
      \<and> method = ''Error: expected string or bytes-like object''"
    by (simp add: resolve_NotStr)
  then show ?thesis
    by (simp add: all_sales_keyed hello_with_query hello_bare count_sales_bare)
qed

text \<open>
  Claim C2, as the spec states it: a result whose method is not the error one carries a
  query that the sanitizer accepts and the validator finds valid. The resolver never
  calls the validator: a remote text that the sanitizer accepts is returned as it is,
  here a query that starts with \<open>WITH\<close>, which the validator rejects.
\<close>

theorem resolve_valid_counterexample:
  "natural_language_to_sql \<lparr>openai_api_key = Some ''sk-test'', schema_context = []\<rparr>
     (Inr ''WITH t AS (SELECT 1) SELECT * FROM t'') (Str ''hello'')
   = Inr (''WITH t AS (SELECT 1) SELECT * FROM t'', ''OpenAI GPT'')
   \<and> validate_sql ''WITH t AS (SELECT 1) SELECT * FROM t'' = Inr False"
  using hello_with_query with_query_invalid by simp

text \<open>
  Claim C2, amended: the query of a result whose method is not an error tag is accepted
  by the sanitizer, which returns it unchanged; the validator finds it valid when the
  result comes from one of the two tables or is the default, and may reject it when it
  is the remote text (tag \<open>OpenAI GPT\<close>).
\<close>

theorem resolve_sanitized:
  assumes "natural_language_to_sql self response arg = Inr (sql, method)"
    and "\<not> prefix ''Error: '' method"
  shows "clean_sql_query sql = Inr sql
         \<and> (method \<noteq> ''OpenAI GPT'' \<longrightarrow> validate_sql sql = Inr True)"
proof (cases arg)
  case (NotStr msg)
  with assms(1) have "method = ''Error: '' @ msg" by (simp add: resolve_NotStr)
  with assms(2) show ?thesis by simp
next
  case (Str q)
  show ?thesis
  proof (cases "first_hit re_match fallback_patterns q")
    case (Some hit)
    with assms(1) Str have "sql = hit" by (simp add: resolve_Str)
    with Some have "plain_select sql"
      using first_hit_plain[OF fallback_patterns_plain] by simp
    then show ?thesis by (simp add: plain_select_ok)
  next
    case None
    show ?thesis
    proof (cases "has_key self \<and> \<not> tier3_fails response")
      case True
      with assms(1) Str None
      have sql: "sql = cleaned_text (py_strip (projr response))" and m: "method = ''OpenAI GPT''"
        by (simp_all add: resolve_Str)
      from True obtain content y where "response = Inr content"
        "clean_sql_query (py_strip content) = Inr y"
        by (auto simp: tier3_ok)
      with sql have "clean_sql_query (py_strip content) = Inr sql"
        by (simp add: clean_sql_query_Inr)
      then have "clean_sql_query sql = Inr sql" by (rule clean_sql_query_fixed)
      with m show ?thesis by simp
    next
      case False
      with assms(1) Str None have "rule_based_to_sql q = (sql, method)"
        by (auto simp: resolve_Str)
      with rule_based_plain[of q] have "plain_select sql" by simp
      then show ?thesis by (simp add: plain_select_ok)
    qed
  qed
qed

theorem resolve_sanitized_witness:
  "natural_language_to_sql \<lparr>openai_api_key = None, schema_context = []\<rparr>
     (Inr ''SELECT 2'') (Str ''hello'')
   = Inr (''SELECT * FROM sales LIMIT 10'', ''Default fallback'')
   \<and> \<not> prefix ''Error: '' ''Default fallback''
   \<and> ''Default fallback'' \<noteq> ''OpenAI GPT''
   \<and> clean_sql_query ''SELECT * FROM sales LIMIT 10'' = Inr ''SELECT * FROM sales LIMIT 10''
   \<and> validate_sql ''SELECT * FROM sales LIMIT 10'' = Inr True
   \<and> natural_language_to_sql \<lparr>openai_api_key = Some ''sk-test'', schema_context = []\<rparr>
     (Inr ''WITH t AS (SELECT 1) SELECT * FROM t'') (Str ''hello'')
   = Inr (''WITH t AS (SELECT 1) SELECT * FROM t'', ''OpenAI GPT'')
   \<and> \<not> prefix ''Error: '' ''OpenAI GPT''
   \<and> clean_sql_query ''WITH t AS (SELECT 1) SELECT * FROM t''
       = Inr ''WITH t AS (SELECT 1) SELECT * FROM t''"
proof -
  have n1: "\<not> prefix ''Error: '' ''Default fallback''" by simp
  have n2: "\<not> prefix ''Error: '' ''OpenAI GPT''" by simp
  have n3: "''Default fallback'' \<noteq> ''OpenAI GPT''" by simp
  from resolve_sanitized[OF hello_bare[of "Inr ''SELECT 2''"] n1] n3
  have r1: "clean_sql_query ''SELECT * FROM sales LIMIT 10'' = Inr ''SELECT * FROM sales LIMIT 10''
            \<and> validate_sql ''SELECT * FROM sales LIMIT 10'' = Inr True"
    by blast
  from resolve_sanitized[OF hello_with_query n2]
  have r2: "clean_sql_query ''WITH t AS (SELECT 1) SELECT * FROM t''
              = Inr ''WITH t AS (SELECT 1) SELECT * FROM t''"
    by blast
  from hello_bare[of "Inr ''SELECT 2''"] n1 n3 r1 hello_with_query n2 r2
  show ?thesis by blast
qed

text \<open>
  Claim C6, as the spec states it: any exception raised during a resolution ends in an
  error result. An exception of the remote call does not: \<open>_openai_to_sql\<close> catches it
  and answers with the rule-based tier, here with the default query.
\<close>

theorem resolve_exception_counterexample:
  "has_key \<lparr>openai_api_key = Some ''sk-test'', schema_context = []\<rparr>
   \<and> no_hit re_match fallback_patterns ''hello''
   \<and> natural_language_to_sql \<lparr>openai_api_key = Some ''sk-test'', schema_context = []\<rparr>
       (Inl (RemoteError ''timeout'')) (Str ''hello'')
     = Inr (''SELECT * FROM sales LIMIT 10'', ''Default fallback'')"
  using keyed hello_tier1 hello_timeout by simp

text \<open>
  Claim C6, amended: the resolver never raises. An exception of the remote call, or of
  the sanitizer on the remote text, is caught inside tier 3 and the resolver answers
  with the rule-based tier, so that on a string the body of the \<open>try\<close> statement
  never raises; any exception that does leave that body is caught and turned into the
  result \<open>SELECT 1 as error\<close> with the tag \<open>Error: \<close> followed by its message.
  That placeholder query is harmless: the sanitizer and the validator accept it.
\<close>

theorem resolve_never_raises:
  "(\<exists>r. natural_language_to_sql self response arg = Inr r)
   \<and> (\<exists>r. resolve_body self response (Str q) = Inr r)
   \<and> (no_hit re_match fallback_patterns q \<and> has_key self \<and> tier3_fails response \<longrightarrow>
        natural_language_to_sql self response (Str q) = Inr (rule_based_to_sql q))
   \<and> (\<forall>e. resolve_body self response arg = Inl e \<longrightarrow>
        natural_language_to_sql self response arg
          = Inr (''SELECT 1 as error'', ''Error: '' @ exn_str e))
   \<and> clean_sql_query ''SELECT 1 as error'' = Inr ''SELECT 1 as error''
   \<and> validate_sql ''SELECT 1 as error'' = Inr True"
proof (intro conjI allI impI)
  show "clean_sql_query ''SELECT 1 as error'' = Inr ''SELECT 1 as error''"
    and "validate_sql ''SELECT 1 as error'' = Inr True"
    by (rule plain_select_ok[OF error_plain])+
  show "\<exists>r. natural_language_to_sql self response arg = Inr r"
    by (cases arg) (auto simp: resolve_Str resolve_NotStr split: option.splits)
  show "\<exists>r. resolve_body self response (Str q) = Inr r"
    by (auto simp: openai_to_sql_cases split: option.splits)
next
  assume "no_hit re_match fallback_patterns q \<and> has_key self \<and> tier3_fails response"
  then show "natural_language_to_sql self response (Str q) = Inr (rule_based_to_sql q)"
    using first_hit_no_hit[of re_match fallback_patterns q] by (simp add: resolve_Str)
next
  fix e
  assume "resolve_body self response arg = Inl e"
  then show "natural_language_to_sql self response arg
               = Inr (''SELECT 1 as error'', ''Error: '' @ exn_str e)"
    by (simp add: natural_language_to_sql_def try_except_def)
qed

theorem resolve_never_raises_witness:
  "no_hit re_match fallback_patterns ''hello''
   \<and> has_key \<lparr>openai_api_key = Some ''sk-test'', schema_context = []\<rparr>
   \<and> tier3_fails (Inl (RemoteError ''timeout''))
   \<and> natural_language_to_sql \<lparr>openai_api_key = Some ''sk-test'', schema_context = []\<rparr>
       (Inl (RemoteError ''timeout'')) (Str ''hello'')
     = Inr (''SELECT * FROM sales LIMIT 10'', ''Default fallback'')
   \<and> resolve_body \<lparr>openai_api_key = Some ''sk-test'', schema_context = []\<rparr>
       (Inl (RemoteError ''timeout'')) (NotStr ''expected string or bytes-like object'')
     = Inl (TypeError ''expected string or bytes-like object'')
   \<and> natural_language_to_sql \<lparr>openai_api_key = Some ''sk-test'', schema_context = []\<rparr>
       (Inl (RemoteError ''timeout'')) (NotStr ''expected string or bytes-like object'')
     = Inr (''SELECT 1 as error'', ''Error: expected string or bytes-like object'')"
proof -
  let ?keyed = "\<lparr>openai_api_key = Some ''sk-test'', schema_context = []\<rparr>"
  let ?arg = "NotStr ''expected string or bytes-like object''"
  have b: "resolve_body ?keyed (Inl (RemoteError ''timeout'')) ?arg
             = Inl (TypeError ''expected string or bytes-like object'')"
    by simp
  from resolve_never_raises[where self = ?keyed and response = "Inl (RemoteError ''timeout'')"
      and q = "''hello''" and arg = ?arg] hello_tier1 keyed timeout_fails b
  have "natural_language_to_sql ?keyed (Inl (RemoteError ''timeout'')) (Str ''hello'')
          = Inr (rule_based_to_sql ''hello'')"
    and "natural_language_to_sql ?keyed (Inl (RemoteError ''timeout'')) ?arg
          = Inr (''SELECT 1 as error'', ''Error: '' @ exn_str (TypeError ''expected string or bytes-like object''))"
    by blast+
  with hello_tier1 keyed timeout_fails b show ?thesis
    by (simp add: hello_rule_based)
qed

subsection \<open>Counting a character through the cleaning\<close>








section \<open>The validator\<close>




end
